theory Spec2Isabelle
  imports Complex_Main "HOL-Library.Char_ord"
begin

section \<open>The MHC class I lesson notebook: data model\<close>

text \<open>
  The notebook \<^verbatim>\<open>epitope/mhci_lesson.ipynb\<close> encodes peptides numerically, fits one
  regressor per allele and scores predictors by ROC AUC. Its code cells are embedded
  below, one definition per Python function. Tables and functions the notebook takes
  from other packages (the NLF and BLOSUM62 tables, the training and evaluation sets
  of \<^verbatim>\<open>epitopepredict\<close>, the regressor of scikit-learn) are parameters of the
  definitions that use them.
\<close>

subsection \<open>Exceptions\<close>

text \<open>
  A raise is a value \<open>Inl e\<close> of a sum type. \<open>KeyboardInterrupt\<close> stands for the
  exceptions that do not derive from Python's class \<^verbatim>\<open>Exception\<close>, which the clause
  \<^verbatim>\<open>except Exception\<close> of the evaluation loop lets through.
\<close>

datatype exn = KeyError string | ValueError string | RuntimeError string | KeyboardInterrupt

fun is_Exception :: "exn \<Rightarrow> bool" where
  "is_Exception KeyboardInterrupt = False"
| "is_Exception _ = True"

text \<open>Evaluating a list of results in order: the first raise wins.\<close>

fun collect :: "(exn + 'a) list \<Rightarrow> exn + 'a list" where
  "collect [] = Inr []"
| "collect (r # rs) =
     (case r of
        Inl e \<Rightarrow> Inl e
      | Inr v \<Rightarrow> (case collect rs of Inl e \<Rightarrow> Inl e | Inr vs \<Rightarrow> Inr (v # vs)))"

subsection \<open>The linearized affinity\<close>

text \<open>
  The notebook states the formula in its text:
  \<^verbatim>\<open>log50k = 1-log(ic50) / log(50000)\<close>, with the natural logarithm.
\<close>

definition log50k_of_ic50 :: "real \<Rightarrow> real" where
  "log50k_of_ic50 x = 1 - ln x / ln 50000"

subsection \<open>Affinity records\<close>

text \<open>
  A row of the training set, with the columns the notebook displays:
  \<^verbatim>\<open>cols = ['allele','peptide','ic50','length','log50k']\<close>.
\<close>

record affinity =
  allele :: string
  peptide :: string
  ic50 :: real
  pep_length :: nat
  log50k :: real

text \<open>
  \<^verbatim>\<open>ep.get_training_set(allele=None, length=None)\<close> belongs to the package
  \<^verbatim>\<open>epitopepredict\<close>; it is the parameter \<open>get_training_set\<close> below, a function of
  the two optional arguments.
\<close>

type_synonym training = "string option \<Rightarrow> nat option \<Rightarrow> affinity list"

section \<open>Training\<close>

text \<open>
  \<^verbatim>\<open>
  def build_predictor(allele, encoder):
      data = ep.get_training_set(allele)
      if len(data)<200:
          return
      reg = MLPRegressor(...)
      X = data.peptide.apply(lambda x: pd.Series(encoder(x)),1)
      y = data.log50k
      print (allele, len(X))
      reg.fit(X,y)
      return reg
  \<close>
  The bare \<^verbatim>\<open>return\<close> gives \<^verbatim>\<open>None\<close>: the result \<open>Inr None\<close>. The regressor
  is the parameter \<open>fit\<close>, from the encoded peptides and the targets to the fitted
  model; it and the encoder may raise.
\<close>

definition build_predictor ::
  "training \<Rightarrow> ('x list \<Rightarrow> real list \<Rightarrow> exn + 'm) \<Rightarrow> string \<Rightarrow> (string \<Rightarrow> exn + 'x) \<Rightarrow> exn + 'm option"
where
  "build_predictor get_training_set fit a encoder =
     (let data = get_training_set (Some a) None in
      if length data < 200 then Inr None
      else
        (case collect (map (\<lambda>r. encoder (peptide r)) data) of
           Inl e \<Rightarrow> Inl e
         | Inr X \<Rightarrow>
             (case fit X (map log50k data) of
                Inl e \<Rightarrow> Inl e
              | Inr reg \<Rightarrow> Inr (Some reg))))"

text \<open>
  \<^verbatim>\<open>
  def get_allele_names():
      d = ep.get_training_set(length=9)
      a = d.allele.value_counts()
      a =a[a>200]
      return list(a.index)
  \<close>
  \<open>value_counts\<close> pairs every distinct label with the number of its rows, the most
  frequent first.
\<close>

definition value_counts :: "string list \<Rightarrow> (string \<times> nat) list" where
  "value_counts ls =
     sort_key (\<lambda>p. - int (snd p)) (map (\<lambda>l. (l, count_list ls l)) (remdups ls))"

definition get_allele_names :: "training \<Rightarrow> string list" where
  "get_allele_names get_training_set =
     (let d = get_training_set None (Some 9);
          a = value_counts (map allele d);
          a = filter (\<lambda>p. 200 < snd p) a
      in map fst a)"

section \<open>Encoders\<close>

text \<open>
  \<^verbatim>\<open>
  codes = ['A', 'C', 'D', 'E', 'F', 'G', 'H', 'I', 'K', 'L',
           'M', 'N', 'P', 'Q', 'R', 'S', 'T', 'V', 'W', 'Y']
  pep='ALDFEQEMT'
  \<close>
\<close>

text \<open>
  What an encoder returns: a flat array, or the bound method \<^verbatim>\<open>flatten\<close> of a
  two-dimensional array (given by its rows), not called.
\<close>

datatype 'a encoded = Array "'a list" | Method_flatten "'a list list"

definition codes :: "char list" where
  "codes = ''ACDEFGHIKLMNPQRSTVWY''"

definition pep :: string where
  "pep = ''ALDFEQEMT''"

subsection \<open>One-hot encoding\<close>

text \<open>
  A data frame is the list of its labelled columns, in column order; all columns have
  one entry per row.
\<close>

type_synonym frame = "(char \<times> int list) list"

text \<open>
  \<^verbatim>\<open>s[0].str.get_dummies(sep=',')\<close> on a series of one-character strings: the tags
  are the distinct characters in sorted order (splitting at the separator leaves no tag
  for a separator character itself), and the column of a tag has a 1 in the rows that
  hold it.
\<close>

definition get_dummies :: "string \<Rightarrow> frame" where
  "get_dummies s =
     map (\<lambda>t. (t, map (\<lambda>c. if c = t then 1 else 0) s))
       (sort (remdups (filter (\<lambda>c. c \<noteq> CHR '','') s)))"

text \<open>\<^verbatim>\<open>pd.DataFrame(np.zeros((n,len(o)),dtype=int),columns=o)\<close>\<close>

definition zeros_frame :: "nat \<Rightarrow> char list \<Rightarrow> frame" where
  "zeros_frame n o_cols = map (\<lambda>l. (l, replicate n 0)) o_cols"

text \<open>
  \<^verbatim>\<open>a.join(x)\<close>: both frames have the row index \<open>0..n-1\<close>, so the join puts the columns
  of \<open>x\<close> after those of \<open>a\<close>; pandas raises \<^verbatim>\<open>ValueError\<close> when a label occurs in
  both.
\<close>

definition join :: "frame \<Rightarrow> frame \<Rightarrow> exn + frame" where
  "join a x =
     (if set (map fst a) \<inter> set (map fst x) = {} then Inr (a @ x)
      else Inl (ValueError ''columns overlap but no suffix specified''))"

text \<open>\<^verbatim>\<open>a.sort_index(axis=1)\<close> orders the columns by label.\<close>

definition sort_index_columns :: "frame \<Rightarrow> frame" where
  "sort_index_columns a = sort_key fst a"

text \<open>\<^verbatim>\<open>a.values.flatten()\<close> reads a frame of \<open>n\<close> rows row by row.\<close>

definition flatten :: "nat \<Rightarrow> frame \<Rightarrow> int list" where
  "flatten n a = concat (map (\<lambda>r. map (\<lambda>col. snd col ! r) a) [0..<n])"

text \<open>
  \<^verbatim>\<open>
  def one_hot_encode(seq):
      o = list(set(codes) - set(seq))
      s = pd.DataFrame(list(seq))
      x = pd.DataFrame(np.zeros((len(seq),len(o)),dtype=int),columns=o)
      a = s[0].str.get_dummies(sep=',')
      a = a.join(x)
      a = a.sort_index(axis=1)
      e = a.values.flatten()
      return e
  \<close>
  Python fixes no order for the list it makes of a set, so the list \<^verbatim>\<open>o\<close> is an
  argument of the model, \<open>o_cols\<close>: \<open>set_difference_list o_cols seq\<close> says that it
  lists \<open>set(codes) - set(seq)\<close>.
  For the empty string \<^verbatim>\<open>pd.DataFrame([])\<close> has no column, and \<^verbatim>\<open>s[0]\<close> raises
  \<^verbatim>\<open>KeyError: 0\<close>.
\<close>

definition set_difference_list :: "char list \<Rightarrow> string \<Rightarrow> bool" where
  "set_difference_list o_cols seq \<longleftrightarrow>
     distinct o_cols \<and> set o_cols = set codes - set seq"

definition one_hot_encode :: "char list \<Rightarrow> string \<Rightarrow> exn + int encoded" where
  "one_hot_encode o_cols seq =
     (if seq = [] then Inl (KeyError ''0'')
      else
        (let x = zeros_frame (length seq) o_cols;
             a = get_dummies seq
         in case join a x of
              Inl e \<Rightarrow> Inl e
            | Inr a \<Rightarrow> Inr (Array (flatten (length seq) (sort_index_columns a)))))"

subsection \<open>NLF and BLOSUM62 encoding\<close>

text \<open>
  \<^verbatim>\<open>nlf\<close> (read from \<^verbatim>\<open>NLF.csv\<close>) and \<^verbatim>\<open>blosum = ep.blosum62\<close> are data frames
  with one column per amino acid: a table is a map from the column label to the column.
  \<^verbatim>\<open>table[i]\<close> raises \<^verbatim>\<open>KeyError\<close> for a label the table does not have.
\<close>

type_synonym 'a table = "char \<rightharpoonup> 'a list"

definition column :: "'a table \<Rightarrow> char \<Rightarrow> exn + 'a list" where
  "column t i = (case t i of None \<Rightarrow> Inl (KeyError [i]) | Some col \<Rightarrow> Inr col)"

text \<open>
  \<^verbatim>\<open>
  def nlf_encode(seq):
      x = pd.DataFrame([nlf[i] for i in seq]).reset_index(drop=True)
      e = x.values.flatten
      return e
  \<close>
  The last line but one names the method and does not call it.
\<close>

definition nlf_encode :: "'a table \<Rightarrow> string \<Rightarrow> exn + 'a encoded" where
  "nlf_encode nlf seq =
     (case collect (map (column nlf) seq) of
        Inl e \<Rightarrow> Inl e
      | Inr x \<Rightarrow> Inr (Method_flatten x))"

text \<open>
  \<^verbatim>\<open>
  def blosum_encode(seq):
      s=list(seq)
      x = pd.DataFrame([blosum[i] for i in seq]).reset_index(drop=True)
      e = x.values.flatten()
      return e
  \<close>
  Each column taken from the table is a row of \<open>x\<close>; flattening reads row by row.
\<close>

definition blosum_encode :: "'a table \<Rightarrow> string \<Rightarrow> exn + 'a encoded" where
  "blosum_encode blosum seq =
     (case collect (map (column blosum) seq) of
        Inl e \<Rightarrow> Inl e
      | Inr x \<Rightarrow> Inr (Array (concat x)))"

subsection \<open>Random encoding\<close>

text \<open>
  \<^verbatim>\<open>np.random.randint(20)\<close> draws from numpy's global generator an integer from 0 up
  to, and not including, 20. The generator is a state \<open>'g\<close> with a parameter \<open>draw\<close>
  giving a raw number and the next state.
\<close>

definition randint :: "('g \<Rightarrow> nat \<times> 'g) \<Rightarrow> nat \<Rightarrow> 'g \<Rightarrow> int \<times> 'g" where
  "randint draw high g = (let (r, g') = draw g in (int (r mod high), g'))"

text \<open>
  \<^verbatim>\<open>
  def random_encode(p):
      return [np.random.randint(20) for i in pep]
  \<close>
  The comprehension runs over the module-level \<^verbatim>\<open>pep\<close>.
\<close>

fun randints :: "('g \<Rightarrow> nat \<times> 'g) \<Rightarrow> 'b list \<Rightarrow> 'g \<Rightarrow> int list \<times> 'g" where
  "randints draw [] g = ([], g)"
| "randints draw (i # is) g =
     (let (v, g') = randint draw 20 g;
          (vs, g'') = randints draw is g'
      in (v # vs, g''))"

definition random_encode :: "('g \<Rightarrow> nat \<times> 'g) \<Rightarrow> string \<Rightarrow> 'g \<Rightarrow> int list \<times> 'g" where
  "random_encode draw p g = randints draw pep g"

section \<open>Scoring\<close>

subsection \<open>Floating-point results\<close>

text \<open>
  A float is a real number or \<^verbatim>\<open>nan\<close>; rounding is not modelled. Arithmetic with
  \<^verbatim>\<open>nan\<close> gives \<^verbatim>\<open>nan\<close>, and every comparison with \<^verbatim>\<open>nan\<close> is false.
\<close>

datatype pyfloat = Float real | NaN

fun pf_add :: "pyfloat \<Rightarrow> pyfloat \<Rightarrow> pyfloat" where
  "pf_add (Float a) (Float b) = Float (a + b)"
| "pf_add _ _ = NaN"

fun pf_sub :: "pyfloat \<Rightarrow> pyfloat \<Rightarrow> pyfloat" where
  "pf_sub (Float a) (Float b) = Float (a - b)"
| "pf_sub _ _ = NaN"

fun pf_mul :: "pyfloat \<Rightarrow> pyfloat \<Rightarrow> pyfloat" where
  "pf_mul (Float a) (Float b) = Float (a * b)"
| "pf_mul _ _ = NaN"

fun pf_half :: "pyfloat \<Rightarrow> pyfloat" where
  "pf_half (Float a) = Float (a / 2)"
| "pf_half NaN = NaN"

fun pf_neg :: "pyfloat \<Rightarrow> pyfloat" where
  "pf_neg (Float a) = Float (- a)"
| "pf_neg NaN = NaN"

fun pf_negative :: "pyfloat \<Rightarrow> bool" where
  "pf_negative (Float a) = (a < 0)"
| "pf_negative NaN = False"

fun pf_nonpositive :: "pyfloat \<Rightarrow> bool" where
  "pf_nonpositive (Float a) = (a \<le> 0)"
| "pf_nonpositive NaN = False"

subsection \<open>The ROC curve and its area (scikit-learn)\<close>

text \<open>
  \<^verbatim>\<open>metrics.roc_curve\<close> and \<^verbatim>\<open>metrics.auc\<close> are functions of scikit-learn, not
  of the notebook. They are modelled after their documentation. For every distinct
  score \<open>t\<close>, from the largest down, the curve has the point counting the samples with
  score at least \<open>t\<close>: the negatives among them over all negatives (\<open>fpr\<close>), the
  positives among them over all positives (\<open>tpr\<close>); it starts at the point \<open>(0, 0)\<close>. A
  rate over an empty class is \<^verbatim>\<open>nan\<close>. The thresholds, which \<open>auc_score\<close> does not
  use, and the dropping of collinear points, which does not change the area, are left
  out, as is the validation of the labels.
\<close>

definition ratio :: "nat \<Rightarrow> nat \<Rightarrow> pyfloat" where
  "ratio k n = (if n = 0 then NaN else Float (real k / real n))"

definition metrics_roc_curve :: "'l list \<Rightarrow> ('s::linorder) list \<Rightarrow> 'l \<Rightarrow> exn + pyfloat list \<times> pyfloat list" where
  "metrics_roc_curve y_true y_score pos_label =
     (if y_true = [] \<or> length y_true \<noteq> length y_score
      then Inl (ValueError ''inconsistent or empty input'')
      else
        (let rows = zip y_true y_score;
             thresholds = rev (sort (remdups y_score));
             tps = map (\<lambda>t. length (filter (\<lambda>(l, s). t \<le> s \<and> l = pos_label) rows)) thresholds;
             fps = map (\<lambda>t. length (filter (\<lambda>(l, s). t \<le> s \<and> l \<noteq> pos_label) rows)) thresholds;
             p = length (filter (\<lambda>l. l = pos_label) y_true);
             n = length (filter (\<lambda>l. l \<noteq> pos_label) y_true)
         in Inr (map (\<lambda>k. ratio k n) (0 # fps), map (\<lambda>k. ratio k p) (0 # tps))))"

text \<open>\<^verbatim>\<open>np.diff(x)\<close> and \<^verbatim>\<open>np.trapz(y, x)\<close>, the trapezoidal rule.\<close>

fun diff :: "pyfloat list \<Rightarrow> pyfloat list" where
  "diff (x1 # x2 # xs) = pf_sub x2 x1 # diff (x2 # xs)"
| "diff _ = []"

fun trapz :: "pyfloat list \<Rightarrow> pyfloat list \<Rightarrow> pyfloat" where
  "trapz (y1 # y2 # ys) (x1 # x2 # xs) =
     pf_add (pf_mul (pf_sub x2 x1) (pf_half (pf_add y2 y1))) (trapz (y2 # ys) (x2 # xs))"
| "trapz _ _ = Float 0"

text \<open>
  \<^verbatim>\<open>metrics.auc(x, y)\<close> wants at least two points and an \<open>x\<close> that only increases or
  only decreases; for a decreasing \<open>x\<close> it negates the area.
\<close>

definition metrics_auc :: "pyfloat list \<Rightarrow> pyfloat list \<Rightarrow> exn + pyfloat" where
  "metrics_auc x y =
     (if length x \<noteq> length y then Inl (ValueError ''inconsistent numbers of samples'')
      else if length x < 2 then Inl (ValueError ''At least 2 points are needed'')
      else
        (let dx = diff x in
         if list_ex pf_negative dx then
           (if list_all pf_nonpositive dx then Inr (pf_neg (trapz y x))
            else Inl (ValueError ''x is neither increasing nor decreasing''))
         else Inr (trapz y x)))"

subsection \<open>The notebook's score\<close>

text \<open>\<^verbatim>\<open>(v<=cutoff).astype(int)\<close> on a series of floats.\<close>

definition binarize :: "real \<Rightarrow> real list \<Rightarrow> int list" where
  "binarize cutoff vs = map (\<lambda>v. if v \<le> cutoff then 1 else 0) vs"

text \<open>
  \<^verbatim>\<open>
  def auc_score(true,sc,cutoff=None):
      if cutoff!=None:
          true = (true<=cutoff).astype(int)
          sc = (sc<=cutoff).astype(int)
      fpr, tpr, thresholds = metrics.roc_curve(true, sc, pos_label=1)
      r = metrics.auc(fpr, tpr)
      return  r
  \<close>
\<close>

definition auc_score :: "real list \<Rightarrow> real list \<Rightarrow> real option \<Rightarrow> exn + pyfloat" where
  "auc_score true sc cutoff =
     (case cutoff of
        Some c \<Rightarrow>
          (case metrics_roc_curve (binarize c true) (binarize c sc) 1 of
             Inl e \<Rightarrow> Inl e
           | Inr (fpr, tpr) \<Rightarrow> metrics_auc fpr tpr)
      | None \<Rightarrow>
          (case metrics_roc_curve true sc 1 of
             Inl e \<Rightarrow> Inl e
           | Inr (fpr, tpr) \<Rightarrow> metrics_auc fpr tpr))"

section \<open>Evaluation\<close>

text \<open>
  A predictor \<open>P\<close> has a name, and \<open>scores P peptides a\<close> stands for the two calls
  \<^verbatim>\<open>P.predict_peptides(peptides, alleles=a, cpus=4); x = P.get_scores(a)\<close>: the
  frame of peptides and scores, or a raise. \<^verbatim>\<open>ep.get_evaluation_set\<close> is a
  parameter, as the training set is, and may raise as well.
\<close>

record predictor =
  name :: string
  scores :: "string list \<Rightarrow> string \<Rightarrow> exn + (string \<times> real) list"

type_synonym evaluation = "string option \<Rightarrow> nat option \<Rightarrow> exn + affinity list"

text \<open>
  \<^verbatim>\<open>data.merge(x,on='peptide')\<close>: the inner join, in the order of the rows of
  \<open>data\<close>.
\<close>

definition merge_on_peptide :: "affinity list \<Rightarrow> (string \<times> real) list \<Rightarrow> (affinity \<times> real) list" where
  "merge_on_peptide data x =
     concat (map (\<lambda>r. map (\<lambda>q. (r, snd q)) (filter (\<lambda>q. fst q = peptide r) x)) data)"

text \<open>
  \<^verbatim>\<open>
  def evaluate_predictor(P, allele):
      data = ep.get_evaluation_set(allele, length=9)
      P.predict_peptides(list(data.peptide), alleles=allele, cpus=4)
      x = P.get_scores(allele)
      x = data.merge(x,on='peptide')
      auc = auc_score(x.ic50,x.score,cutoff=500)
      return auc, data
  \<close>
\<close>

definition evaluate_predictor :: "evaluation \<Rightarrow> predictor \<Rightarrow> string \<Rightarrow> exn + pyfloat \<times> affinity list" where
  "evaluate_predictor get_evaluation_set P a =
     (case get_evaluation_set (Some a) (Some 9) of
        Inl e \<Rightarrow> Inl e
      | Inr data \<Rightarrow>
          (case scores P (map peptide data) a of
             Inl e \<Rightarrow> Inl e
           | Inr x \<Rightarrow>
               (let x = merge_on_peptide data x in
                case auc_score (map (\<lambda>r. ic50 (fst r)) x) (map snd x) (Some 500) of
                  Inl e \<Rightarrow> Inl e
                | Inr auc \<Rightarrow> Inr (auc, data))))"

text \<open>
  \<^verbatim>\<open>
  for P in preds:
      m=[]
      for a in test_alleles:
          try:
              auc,df = evaluate_predictor(P, a)
              m.append((a,auc,len(df)))
          except Exception as e:
              print (a,e)
              pass
      m=pd.DataFrame(m,columns=['allele','score','size'])
      m['name'] = P.name
      comp.append(m)
  \<close>
  The state of the inner loop is the list \<open>m\<close> and what has been printed. The
  evaluation of one allele is the argument \<open>ev\<close>; the outer loop passes
  \<open>evaluate_predictor\<close> for the predictor at hand. A raise that is not an
  \<^verbatim>\<open>Exception\<close> leaves the loop. The list \<^verbatim>\<open>comp\<close> of the outer loop is \<open>comp_list\<close>.
\<close>

type_synonym score_row = "string \<times> pyfloat \<times> nat"

fun evaluate_alleles ::
  "(string \<Rightarrow> exn + pyfloat \<times> affinity list) \<Rightarrow> string list \<Rightarrow>
   score_row list \<times> (string \<times> exn) list \<Rightarrow> exn + score_row list \<times> (string \<times> exn) list"
where
  "evaluate_alleles ev [] st = Inr st"
| "evaluate_alleles ev (a # as) (m, out) =
     (case ev a of
        Inr (auc, df) \<Rightarrow> evaluate_alleles ev as (m @ [(a, auc, length df)], out)
      | Inl e \<Rightarrow>
          if is_Exception e then evaluate_alleles ev as (m, out @ [(a, e)])
          else Inl e)"

fun evaluate_predictors ::
  "evaluation \<Rightarrow> predictor list \<Rightarrow> string list \<Rightarrow>
   (string \<times> score_row list) list \<times> (string \<times> exn) list \<Rightarrow>
   exn + (string \<times> score_row list) list \<times> (string \<times> exn) list"
where
  "evaluate_predictors get_evaluation_set [] test_alleles st = Inr st"
| "evaluate_predictors get_evaluation_set (P # Ps) test_alleles (comp_list, out) =
     (case evaluate_alleles (evaluate_predictor get_evaluation_set P) test_alleles ([], out) of
        Inl e \<Rightarrow> Inl e
      | Inr (m, out') \<Rightarrow>
          evaluate_predictors get_evaluation_set Ps test_alleles (comp_list @ [(name P, m)], out'))"

section \<open>Example data\<close>

text \<open>
  Two rows of the kind the notebook displays, and a training set with 201 rows of
  length 9 for the first allele and 200 for the second.
\<close>

definition row_a1 :: affinity where
  "row_a1 = \<lparr>allele = ''HLA-A*01:01'', peptide = ''ADFKLFFRW'', ic50 = 20000,
     pep_length = 9, log50k = 0.084687\<rparr>"

definition row_a3 :: affinity where
  "row_a3 = \<lparr>allele = ''HLA-A*03:01'', peptide = ''ADTDSPLRY'', ic50 = 32,
     pep_length = 9, log50k = 0.679685\<rparr>"

definition example_training :: training where
  "example_training a l =
     (if a = None then replicate 201 row_a1 @ replicate 200 row_a3
      else if a = Some ''HLA-A*01:01'' then replicate 201 row_a1
      else if a = Some ''HLA-A*03:01'' then replicate 200 row_a3
      else [])"

text \<open>
  A table with a column of \<open>w\<close> values for each of the twenty amino acids (every
  entry is the character code of the amino acid), standing in for the NLF and BLOSUM62
  tables, whose values the notebook reads from elsewhere.
\<close>

definition toy_table :: "nat \<Rightarrow> int table" where
  "toy_table w c = (if c \<in> set codes then Some (replicate w (of_char c)) else None)"

text \<open>
  An evaluation of single alleles that fails for one of them, an evaluation set of two
  rows, and a predictor that scores the two peptides.
\<close>

definition example_ev :: "string \<Rightarrow> exn + pyfloat \<times> affinity list" where
  "example_ev a =
     (if a = ''HLA-B*07:02'' then Inl (KeyError ''HLA-B*07:02'') else Inr (Float 1, [row_a1, row_a3]))"

definition example_evaluation :: evaluation where
  "example_evaluation a l = Inr [row_a1, row_a3]"

definition example_predictor :: predictor where
  "example_predictor = \<lparr>name = ''basicmhc1'',
     scores = (\<lambda>ps a. Inr [(''ADTDSPLRY'', 450), (''ADFKLFFRW'', 9000)])\<rparr>"

section \<open>Properties\<close>

subsection \<open>Linearization\<close>

text \<open>
  C5: the linearized affinity is \<open>1 - log(IC50)/log(50000)\<close>; it is 0 at
  IC50 = 50000 and 1 at IC50 = 1.
\<close>

theorem log50k_endpoints:
  "log50k_of_ic50 x = 1 - ln x / ln 50000 \<and> log50k_of_ic50 50000 = 0 \<and> log50k_of_ic50 1 = 1"
proof -
  have "ln (50000::real) \<noteq> 0" by simp
  then show ?thesis by (simp add: log50k_of_ic50_def)
qed

subsection \<open>Helper lemmas\<close>

lemma collect_Inr_iff: "collect rs = Inr vs \<longleftrightarrow> rs = map Inr vs"
proof (induction rs arbitrary: vs)
  case Nil
  then show ?case by auto
next
  case (Cons r rs)
  show ?case
  proof (cases r)
    case (Inl e)
    then show ?thesis by auto
  next
    case (Inr v)
    show ?thesis
    proof (cases "collect rs")
      case (Inl e)
      with Cons.IH[of "tl vs"] Inr show ?thesis by (cases vs) auto
    next
      case Inr2: (Inr ws)
      with Cons.IH[of ws] Inr show ?thesis by auto
    qed
  qed
qed

lemma insort_key_map:
  "insort_key k (g x) (map g xs) = map g (insort_key (\<lambda>y. k (g y)) x xs)"
  by (induction xs) auto

lemma sort_key_map: "sort_key k (map g xs) = map g (sort_key (\<lambda>y. k (g y)) xs)"
  by (induction xs) (simp_all add: insort_key_map)

lemma nth_concat_uniform:
  assumes "\<forall>x \<in> set xss. length x = w" and "i < length xss" and "j < w"
  shows "concat xss ! (w * i + j) = xss ! i ! j"
  using assms
proof (induction xss arbitrary: i)
  case Nil
  then show ?case by simp
next
  case (Cons xs xss)
  show ?case
  proof (cases i)
    case 0
    with Cons.prems show ?thesis by (simp add: nth_append)
  next
    case (Suc k)
    with Cons.prems have "concat xss ! (w * k + j) = xss ! k ! j"
      by (intro Cons.IH) auto
    moreover have "w * i + j = length xs + (w * k + j)"
      using Cons.prems Suc by simp
    ultimately show ?thesis using Suc by (simp add: nth_append)
  qed
qed

lemma length_concat_uniform:
  "\<forall>x \<in> set xss. length x = w \<Longrightarrow> length (concat xss) = w * length xss"
  by (induction xss) auto

lemma count_list_replicate: "count_list (replicate n x) y = (if x = y then n else 0)"
  by (induction n) auto

subsection \<open>Training\<close>

lemma set_value_counts: "set (value_counts ls) = (\<lambda>l. (l, count_list ls l)) ` set ls"
  by (simp add: value_counts_def)

lemma frequent_labels:
  "set (map fst (filter (\<lambda>p. k < snd p) (value_counts ls))) = {a. k < count_list ls a}"
proof (intro set_eqI iffI)
  fix a assume "a \<in> set (map fst (filter (\<lambda>p. k < snd p) (value_counts ls)))"
  then obtain n where "(a, n) \<in> set (value_counts ls)" and "k < n" by auto
  then show "a \<in> {a. k < count_list ls a}" by (auto simp: set_value_counts)
next
  fix a assume "a \<in> {a. k < count_list ls a}"
  then have k: "k < count_list ls a" by simp
  then have "count_list ls a \<noteq> 0" by simp
  then have "a \<in> set ls" by (simp add: count_list_0_iff)
  then have "(a, count_list ls a) \<in> set (value_counts ls)" by (simp add: set_value_counts)
  with k have "(a, count_list ls a) \<in> set (filter (\<lambda>p. k < snd p) (value_counts ls))" by simp
  then show "a \<in> set (map fst (filter (\<lambda>p. k < snd p) (value_counts ls)))" by force
qed

lemma set_get_allele_names:
  "set (get_allele_names g) = {a. 200 < count_list (map allele (g None (Some 9))) a}"
  unfolding get_allele_names_def Let_def by (rule frequent_labels)

lemma example_training_counts:
  "count_list (map allele (example_training None (Some 9))) a =
     (if a = ''HLA-A*01:01'' then 201 else if a = ''HLA-A*03:01'' then 200 else 0)"
  by (simp add: example_training_def count_list_replicate row_a1_def row_a3_def)

text \<open>
  C3: with fewer than 200 training rows for the allele, \<open>build_predictor\<close> returns no
  model; with 200 or more, whenever every peptide encodes (to the list \<open>X\<close>, in row
  order) and the fit on \<open>X\<close> and the \<open>log50k\<close> column succeeds, it returns the fitted
  regressor.
\<close>

theorem build_predictor_threshold:
  "(length (g (Some a) None) < 200 \<longrightarrow> build_predictor g fit a enc = Inr None) \<and>
   (200 \<le> length (g (Some a) None) \<longrightarrow>
      map (\<lambda>r. enc (peptide r)) (g (Some a) None) = map Inr X \<longrightarrow>
      fit X (map log50k (g (Some a) None)) = Inr reg \<longrightarrow>
      build_predictor g fit a enc = Inr (Some reg))"
  by (simp add: build_predictor_def Let_def collect_Inr_iff[THEN iffD2])

theorem build_predictor_threshold_witness:
  "build_predictor (\<lambda>a l. replicate 199 row_a1) (\<lambda>X y. Inr (length X, length y)) ''HLA-A*01:01'' Inr
     = Inr None \<and>
   build_predictor (\<lambda>a l. replicate 200 row_a1) (\<lambda>X y. Inr (length X, length y)) ''HLA-A*01:01'' Inr
     = Inr (Some (200, 200))"
  using build_predictor_threshold [where g = "\<lambda>a l. replicate 199 row_a1"
      and a = "''HLA-A*01:01''" and fit = "\<lambda>X y. Inr (length X, length y)" and enc = Inr]
    build_predictor_threshold [where g = "\<lambda>a l. replicate 200 row_a1"
      and a = "''HLA-A*01:01''" and fit = "\<lambda>X y. Inr (length X, length y)" and enc = Inr
      and X = "replicate 200 (peptide row_a1)" and reg = "(200, 200)"]
  by simp

text \<open>
  C10: every name \<open>get_allele_names\<close> returns has more than 200 training rows of
  length 9. If the training set of every allele is at least as large as its part of
  the length-9 set, \<open>build_predictor\<close> never returns \<open>None\<close> for such a name; and an
  allele with exactly 200 rows of length 9 passes the guard of \<open>build_predictor\<close> and
  is not among the names.
\<close>

theorem get_allele_names_above_threshold:
  assumes "\<forall>a. count_list (map allele (g None (Some 9))) a \<le> length (g (Some a) None)"
  shows "(\<forall>a \<in> set (get_allele_names g).
            200 < count_list (map allele (g None (Some 9))) a \<and>
            build_predictor g fit a enc \<noteq> Inr None) \<and>
         (\<forall>a. count_list (map allele (g None (Some 9))) a = 200 \<longrightarrow>
            \<not> length (g (Some a) None) < 200 \<and> a \<notin> set (get_allele_names g))"
proof -
  have big: "build_predictor g fit a enc \<noteq> Inr None" if "200 \<le> length (g (Some a) None)" for a
    using that by (simp add: build_predictor_def Let_def split: sum.splits)
  show ?thesis
  proof (intro conjI ballI allI impI)
    fix a assume "a \<in> set (get_allele_names g)"
    then show "200 < count_list (map allele (g None (Some 9))) a"
      by (simp add: set_get_allele_names)
    with assms have "200 \<le> length (g (Some a) None)"
      by (meson le_trans less_imp_le_nat)
    then show "build_predictor g fit a enc \<noteq> Inr None" by (rule big)
  next
    fix a assume c: "count_list (map allele (g None (Some 9))) a = 200"
    with assms show "\<not> length (g (Some a) None) < 200"
      by (metis not_less)
    from c show "a \<notin> set (get_allele_names g)"
      by (simp add: set_get_allele_names)
  qed
qed


theorem get_allele_names_above_threshold_witness:
  "(\<forall>a. count_list (map allele (example_training None (Some 9))) a
        \<le> length (example_training (Some a) None)) \<and>
   ''HLA-A*01:01'' \<in> set (get_allele_names example_training) \<and>
   build_predictor example_training (\<lambda>X y. Inr (length X, length y)) ''HLA-A*01:01'' Inr
     \<noteq> Inr None \<and>
   count_list (map allele (example_training None (Some 9))) ''HLA-A*03:01'' = 200 \<and>
   \<not> length (example_training (Some ''HLA-A*03:01'') None) < 200 \<and>
   ''HLA-A*03:01'' \<notin> set (get_allele_names example_training)"
proof -
  have h: "\<forall>a. count_list (map allele (example_training None (Some 9))) a
        \<le> length (example_training (Some a) None)"
    by (simp add: example_training_counts) (simp add: example_training_def)
  have m: "''HLA-A*01:01'' \<in> set (get_allele_names example_training)"
    by (simp add: set_get_allele_names example_training_counts)
  have c: "count_list (map allele (example_training None (Some 9))) ''HLA-A*03:01'' = 200"
    by (simp add: example_training_counts)
  from get_allele_names_above_threshold [OF h, where fit = "\<lambda>X y. Inr (length X, length y)"
      and enc = Inr] m c h show ?thesis
    by blast
qed


subsection \<open>One-hot encoding\<close>

lemma codes_sorted: "sorted codes"
  by (simp add: codes_def less_eq_char_def)

lemma codes_distinct: "distinct codes"
  by (simp add: codes_def)

lemma length_codes: "length codes = 20"
  by (simp add: codes_def)

lemma comma_notin_codes: "CHR '','' \<notin> set codes"
  by (simp add: codes_def)

lemma one_hot_frame:
  assumes "seq \<noteq> []" "set seq \<subseteq> set codes" "set_difference_list o_cols seq"
  shows "one_hot_encode o_cols seq =
    Inr (Array (concat (map (\<lambda>c. map (\<lambda>l. if c = l then 1 else 0) codes) seq)))"
proof -
  let ?tags = "sort (remdups (filter (\<lambda>c. c \<noteq> CHR '','') seq))"
  define indicator :: "char \<Rightarrow> int list"
    where "indicator l = map (\<lambda>c. if c = l then 1 else 0) seq" for l
  have nocomma: "filter (\<lambda>c. c \<noteq> CHR '','') seq = seq"
    using assms(2) comma_notin_codes by (auto simp: filter_id_conv)
  have dis: "distinct o_cols" and so: "set o_cols = set codes - set seq"
    using assms(3) by (simp_all add: set_difference_list_def)
  have gd: "get_dummies seq = map (\<lambda>l. (l, indicator l)) ?tags"
    by (simp add: get_dummies_def indicator_def)
  have zero: "replicate (length seq) 0 = indicator l" if "l \<notin> set seq" for l
    using that by (auto simp: indicator_def map_replicate_const[symmetric] intro!: map_cong)
  have zf: "zeros_frame (length seq) o_cols = map (\<lambda>l. (l, indicator l)) o_cols"
    using so by (simp add: zeros_frame_def zero)
  have disj: "set (map fst (get_dummies seq)) \<inter> set (map fst (zeros_frame (length seq) o_cols)) = {}"
    using so by (auto simp: gd zf comp_def nocomma)
  have j: "join (get_dummies seq) (zeros_frame (length seq) o_cols)
      = Inr (map (\<lambda>l. (l, indicator l)) (?tags @ o_cols))"
    using disj by (simp add: join_def) (simp add: gd zf)
  have "sorted (sort (?tags @ o_cols))" by simp
  moreover have "distinct (sort (?tags @ o_cols))"
    using dis so by (auto simp: nocomma)
  moreover have "set (sort (?tags @ o_cols)) = set codes"
    using so assms(2) by (auto simp: nocomma)
  ultimately have srt: "sort (?tags @ o_cols) = codes"
    using codes_sorted codes_distinct by (intro sorted_distinct_set_unique) auto
  have sic: "sort_index_columns (map (\<lambda>l. (l, indicator l)) (?tags @ o_cols))
      = map (\<lambda>l. (l, indicator l)) codes"
    unfolding sort_index_columns_def sort_key_map using srt by simp
  have fl: "flatten (length seq) (map (\<lambda>l. (l, indicator l)) codes)
      = concat (map (\<lambda>c. map (\<lambda>l. if c = l then 1 else 0) codes) seq)"
  proof -
    have "map (\<lambda>r. map (\<lambda>col. snd col ! r) (map (\<lambda>l. (l, indicator l)) codes)) [0..<length seq]
        = map (\<lambda>r. map (\<lambda>l. if seq ! r = l then 1 else 0) codes) [0..<length seq]"
      by (auto simp: indicator_def comp_def)
    also have "\<dots> = map (\<lambda>c. map (\<lambda>l. if c = l then 1 else 0) codes) seq"
      by (rule nth_equalityI) auto
    finally show ?thesis by (simp add: flatten_def)
  qed
  show ?thesis
    using assms(1) by (simp add: one_hot_encode_def Let_def j sic fl del: map_append)
qed


text \<open>
  C2, for non-empty peptides: for every non-empty peptide over the alphabet,
  \<open>one_hot_encode\<close> returns an array of length 20 times the length of the peptide, and
  the block of every position has a 1 at the index of that position's amino acid in
  \<open>codes\<close>, which is sorted, and 0 elsewhere. This holds for every order of the list
  \<^verbatim>\<open>o\<close>.
\<close>

theorem one_hot_encode_blocks:
  assumes "seq \<noteq> []" and "set seq \<subseteq> set codes" and "set_difference_list o_cols seq"
  shows "sorted codes \<and>
         (\<exists>e. one_hot_encode o_cols seq = Inr (Array e) \<and>
            length e = 20 * length seq \<and>
            (\<forall>i < length seq. \<exists>j < 20. codes ! j = seq ! i \<and>
               (\<forall>k < 20. e ! (20 * i + k) = (if k = j then 1 else 0))))"
proof -
  let ?block = "\<lambda>c. map (\<lambda>l. if c = l then 1 else 0 :: int) codes"
  let ?e = "concat (map ?block seq)"
  have w: "\<forall>x \<in> set (map ?block seq). length x = 20"
    by (simp add: length_codes)
  have len: "length ?e = 20 * length seq"
    using length_concat_uniform [OF w] by simp
  have blocks: "\<exists>j < 20. codes ! j = seq ! i \<and>
      (\<forall>k < 20. ?e ! (20 * i + k) = (if k = j then 1 else 0))" if i: "i < length seq" for i
  proof -
    from i assms(2) have "seq ! i \<in> set codes" by (meson nth_mem subsetD)
    then obtain j where j: "j < 20" "codes ! j = seq ! i"
      by (auto simp: in_set_conv_nth length_codes)
    have "?e ! (20 * i + k) = (if k = j then 1 else 0)" if k: "k < 20" for k
    proof -
      have "?e ! (20 * i + k) = map ?block seq ! i ! k"
        using i k by (intro nth_concat_uniform [OF w]) auto
      also have "\<dots> = (if seq ! i = codes ! k then 1 else 0)"
        using i k by (simp add: length_codes)
      also have "\<dots> = (if k = j then 1 else 0)"
        using j k codes_distinct by (auto simp: nth_eq_iff_index_eq length_codes)
      finally show ?thesis .
    qed
    with j show ?thesis by blast
  qed
  from one_hot_frame [OF assms] len blocks codes_sorted show ?thesis by blast
qed

theorem one_hot_encode_blocks_witness:
  "pep \<noteq> [] \<and> set pep \<subseteq> set codes \<and> set_difference_list ''YWVSRPNKIHGC'' pep \<and>
   (\<exists>e. one_hot_encode ''YWVSRPNKIHGC'' pep = Inr (Array e) \<and> length e = 180 \<and>
      (\<forall>i < length pep. \<exists>j < 20. codes ! j = pep ! i \<and>
         (\<forall>k < 20. e ! (20 * i + k) = (if k = j then 1 else 0))))"
proof -
  have a: "pep \<noteq> []" by (simp add: pep_def)
  have b: "set pep \<subseteq> set codes" by (simp add: pep_def codes_def)
  have c: "set_difference_list ''YWVSRPNKIHGC'' pep"
    by (auto simp: set_difference_list_def pep_def codes_def)
  have d: "20 * length pep = 180" by (simp add: pep_def)
  from one_hot_encode_blocks [OF a b c] a b c d show ?thesis by simp
qed


text \<open>
  C2 does not hold of the empty peptide, where the function raises: the frame made of
  the empty list has no column \<open>0\<close>.
\<close>

theorem one_hot_encode_empty: "set '''' \<subseteq> set codes \<and> set_difference_list codes '''' \<and>
   one_hot_encode codes '''' = Inl (KeyError ''0'')"
  by (simp add: one_hot_encode_def set_difference_list_def codes_distinct)

subsection \<open>NLF and BLOSUM62 encoding\<close>

lemma collect_columns:
  assumes "\<forall>c \<in> set seq. \<exists>col. t c = Some col"
  shows "collect (map (column t) seq) = Inr (map (\<lambda>c. the (t c)) seq)"
proof -
  have "map (column t) seq = map Inr (map (\<lambda>c. the (t c)) seq)"
    using assms by (auto simp: column_def)
  then show ?thesis by (simp only: collect_Inr_iff)
qed

text \<open>
  C4: when the BLOSUM62 table has a column of 21 values for every amino acid, the
  encoding of a peptide over the alphabet is the concatenation, in sequence order, of
  the columns of its amino acids: 21 values per position.
\<close>

theorem blosum_encode_columns:
  assumes "\<forall>c \<in> set codes. \<exists>col. blosum c = Some col \<and> length col = 21"
    and "set seq \<subseteq> set codes"
  shows "\<exists>e. blosum_encode blosum seq = Inr (Array e) \<and>
           e = concat (map (\<lambda>c. the (blosum c)) seq) \<and>
           length e = 21 * length seq \<and>
           (\<forall>i < length seq. \<forall>k < 21. e ! (21 * i + k) = the (blosum (seq ! i)) ! k)"
proof -
  let ?cols = "map (\<lambda>c. the (blosum c)) seq"
  have def: "\<forall>c \<in> set seq. \<exists>col. blosum c = Some col"
    using assms by blast
  have w: "\<forall>x \<in> set ?cols. length x = 21"
    using assms by fastforce
  have r: "blosum_encode blosum seq = Inr (Array (concat ?cols))"
    by (simp add: blosum_encode_def collect_columns [OF def])
  have len: "length (concat ?cols) = 21 * length seq"
    using length_concat_uniform [OF w] by simp
  have nth: "concat ?cols ! (21 * i + k) = the (blosum (seq ! i)) ! k"
    if "i < length seq" "k < 21" for i k
    using nth_concat_uniform [OF w, of i k] that by simp
  from r len nth show ?thesis by blast
qed

theorem blosum_encode_columns_witness:
  "set pep \<subseteq> set codes \<and>
   (\<exists>e. blosum_encode (toy_table 21) pep = Inr (Array e) \<and> length e = 189 \<and>
      e = concat (map (\<lambda>c. replicate 21 (of_char c)) pep))"
proof -
  have a: "\<forall>c \<in> set codes. \<exists>col. toy_table 21 c = Some col \<and> length col = 21"
    by (simp add: toy_table_def)
  have b: "set pep \<subseteq> set codes" by (simp add: pep_def codes_def)
  have c: "21 * length pep = 189" by (simp add: pep_def)
  have d: "map (\<lambda>c. the (toy_table 21 c)) pep = map (\<lambda>c. replicate 21 (of_char c)) pep"
    by (simp add: toy_table_def pep_def codes_def)
  from blosum_encode_columns [OF a b] b c d show ?thesis by auto
qed

text \<open>
  C1: \<open>nlf_encode\<close> should return the flat vector of the NLF columns, as
  \<open>blosum_encode\<close> does for its table. It returns the method \<^verbatim>\<open>flatten\<close> itself,
  for every table and peptide, and so for the notebook's own call on \<open>pep\<close>.
\<close>

theorem nlf_encode_returns_method:
  "nlf_encode nlf seq \<noteq> Inr (Array e) \<and>
   nlf_encode (toy_table 19) pep = Inr (Method_flatten (map (\<lambda>c. replicate 19 (of_char c)) pep))"
proof -
  have "nlf_encode nlf seq \<noteq> Inr (Array e)"
    by (simp add: nlf_encode_def split: sum.splits)
  moreover have "\<forall>c \<in> set pep. \<exists>col. toy_table 19 c = Some col"
    by (simp add: toy_table_def pep_def codes_def)
  then have "collect (map (column (toy_table 19)) pep) = Inr (map (\<lambda>c. the (toy_table 19 c)) pep)"
    by (rule collect_columns)
  then have "nlf_encode (toy_table 19) pep
      = Inr (Method_flatten (map (\<lambda>c. replicate 19 (of_char c)) pep))"
    by (simp add: nlf_encode_def) (simp add: toy_table_def pep_def codes_def)
  ultimately show ?thesis by simp
qed

subsection \<open>Random encoding\<close>

lemma randints_length: "length (fst (randints draw xs g)) = length xs"
  by (induction xs arbitrary: g) (simp_all add: split_beta Let_def)

lemma randints_range: "v \<in> set (fst (randints draw xs g)) \<Longrightarrow> 0 \<le> v \<and> v \<le> 19"
proof (induction xs arbitrary: g)
  case Nil
  then show ?case by simp
next
  case (Cons x xs)
  have "int (r mod 20) \<le> 19" for r :: nat
    by (simp add: less_Suc_eq_le [symmetric])
  with Cons show ?case
    by (auto simp: split_beta Let_def randint_def)
qed

text \<open>
  C8: whatever its argument, \<open>random_encode\<close> returns as many numbers as the
  module-level \<open>pep\<close> has characters, that is 9, each from 0 to 19; the argument is
  not used.
\<close>

theorem random_encode_ignores_argument:
  "length (fst (random_encode draw p g)) = length pep \<and> length pep = 9 \<and>
   (\<forall>v \<in> set (fst (random_encode draw p g)). 0 \<le> v \<and> v \<le> 19) \<and>
   random_encode draw p g = random_encode draw q g"
  using randints_range [of _ draw pep g]
  by (simp add: random_encode_def randints_length) (simp add: pep_def)

theorem random_encode_ignores_argument_witness:
  "length (fst (random_encode (\<lambda>g. (g, g + 7)) ''AAA'' (0::nat))) = 9 \<and>
   fst (random_encode (\<lambda>g. (g, g + 7)) ''AAA'' (0::nat)) = [0, 7, 14, 1, 8, 15, 2, 9, 16]"
proof -
  have "fst (random_encode (\<lambda>g. (g, g + 7)) ''AAA'' (0::nat)) = [0, 7, 14, 1, 8, 15, 2, 9, 16]"
    by (simp add: random_encode_def pep_def randint_def)
  with random_encode_ignores_argument [of "\<lambda>g. (g, g + 7)" "''AAA''" "0::nat"]
  show ?thesis by simp
qed

subsection \<open>The evaluation loop\<close>

lemma evaluate_alleles_append:
  "evaluate_alleles ev (xs @ ys) st =
     (case evaluate_alleles ev xs st of Inl e \<Rightarrow> Inl e | Inr st' \<Rightarrow> evaluate_alleles ev ys st')"
proof (induction xs arbitrary: st)
  case Nil
  then show ?case by simp
next
  case (Cons a xs)
  obtain m out where st: "st = (m, out)" by (cases st)
  show ?case
    unfolding st by (simp add: Cons.IH split: sum.splits prod.splits)
qed

lemma evaluate_alleles_rows:
  "evaluate_alleles ev xs (m, out) = Inr (m', out') \<Longrightarrow>
   take (length m) m' = m \<and> (\<forall>r \<in> set m'. r \<in> set m \<or> (\<exists>auc df. ev (fst r) = Inr (auc, df)))"
proof (induction xs arbitrary: m out)
  case Nil
  then show ?case by simp
next
  case (Cons a xs)
  show ?case
  proof (cases "ev a")
    case (Inl e)
    with Cons.prems have "evaluate_alleles ev xs (m, out @ [(a, e)]) = Inr (m', out')"
      by (simp split: if_splits)
    from Cons.IH [OF this] show ?thesis .
  next
    case (Inr p)
    obtain auc df where p: "p = (auc, df)" by (cases p)
    with Cons.prems Inr
    have "evaluate_alleles ev xs (m @ [(a, auc, length df)], out) = Inr (m', out')"
      by simp
    from Cons.IH [OF this]
    have t: "take (length (m @ [(a, auc, length df)])) m' = m @ [(a, auc, length df)]"
      and r: "\<forall>r \<in> set m'. r \<in> set (m @ [(a, auc, length df)]) \<or>
          (\<exists>auc df. ev (fst r) = Inr (auc, df))"
      by blast+
    from t have "take (length m) (take (length (m @ [(a, auc, length df)])) m') = m"
      by simp
    then have "take (length m) m' = m"
      by (simp add: min_def)
    moreover from r Inr p
    have "\<forall>r \<in> set m'. r \<in> set m \<or> (\<exists>auc df. ev (fst r) = Inr (auc, df))"
      by auto
    ultimately show ?thesis by blast
  qed
qed

text \<open>
  C6: when the evaluation of an allele raises an \<^verbatim>\<open>Exception\<close>, the loop prints the
  allele with the exception, leaves the rows collected so far as they are, and goes on
  with the remaining alleles; the rows it ends with begin with the rows collected before
  and have no row for the failed allele.
\<close>

theorem evaluate_alleles_skips_failure:
  assumes "ev a = Inl e" and "is_Exception e"
    and "evaluate_alleles ev before ([], out0) = Inr (m, out)"
  shows "evaluate_alleles ev (before @ a # rest) ([], out0)
           = evaluate_alleles ev rest (m, out @ [(a, e)]) \<and>
         (\<forall>m' out'. evaluate_alleles ev rest (m, out @ [(a, e)]) = Inr (m', out') \<longrightarrow>
            take (length m) m' = m \<and> (\<forall>r \<in> set m'. fst r \<noteq> a))"
proof -
  have step: "evaluate_alleles ev (before @ a # rest) ([], out0)
      = evaluate_alleles ev rest (m, out @ [(a, e)])"
    using assms by (simp add: evaluate_alleles_append)
  have "take (length m) m' = m \<and> (\<forall>r \<in> set m'. fst r \<noteq> a)"
    if run: "evaluate_alleles ev rest (m, out @ [(a, e)]) = Inr (m', out')" for m' out'
  proof -
    from run step have "evaluate_alleles ev (before @ a # rest) ([], out0) = Inr (m', out')"
      by simp
    from evaluate_alleles_rows [OF this] assms(1)
    have "\<forall>r \<in> set m'. fst r \<noteq> a" by auto
    with evaluate_alleles_rows [OF run] show ?thesis by blast
  qed
  with step show ?thesis by blast
qed

theorem evaluate_alleles_skips_failure_witness:
  "evaluate_alleles example_ev [''HLA-A*01:01'', ''HLA-B*07:02'', ''HLA-A*03:01''] ([], [])
     = Inr ([(''HLA-A*01:01'', Float 1, 2), (''HLA-A*03:01'', Float 1, 2)],
            [(''HLA-B*07:02'', KeyError ''HLA-B*07:02'')]) \<and>
   evaluate_alleles example_ev [''HLA-A*01:01'', ''HLA-B*07:02'', ''HLA-A*03:01''] ([], [])
     = evaluate_alleles example_ev [''HLA-A*03:01'']
         ([(''HLA-A*01:01'', Float 1, 2)], [(''HLA-B*07:02'', KeyError ''HLA-B*07:02'')])"
proof -
  have a: "example_ev ''HLA-B*07:02'' = Inl (KeyError ''HLA-B*07:02'')"
    by (simp add: example_ev_def)
  have b: "is_Exception (KeyError ''HLA-B*07:02'')" by simp
  have c: "evaluate_alleles example_ev [''HLA-A*01:01''] ([], [])
      = Inr ([(''HLA-A*01:01'', Float 1, 2)], [])"
    by (simp add: example_ev_def)
  have d: "evaluate_alleles example_ev [''HLA-A*03:01'']
         ([(''HLA-A*01:01'', Float 1, 2)], [(''HLA-B*07:02'', KeyError ''HLA-B*07:02'')])
     = Inr ([(''HLA-A*01:01'', Float 1, 2), (''HLA-A*03:01'', Float 1, 2)],
            [(''HLA-B*07:02'', KeyError ''HLA-B*07:02'')])"
    by (simp add: example_ev_def)
  from evaluate_alleles_skips_failure [OF a b c, of "[''HLA-A*03:01'']"] d
  show ?thesis by simp
qed


subsection \<open>The AUC score\<close>

lemma set_binarize: "set (binarize c vs) \<subseteq> {0, 1}"
  by (auto simp: binarize_def)

lemma zip_same: "zip xs xs = map (\<lambda>x. (x, x)) xs"
  by (induction xs) auto

lemma length_filter_pos:
  "x \<in> set xs \<Longrightarrow> P x \<Longrightarrow> 0 < length (filter P xs)"
  by (induction xs) auto

lemma roc_curve_same_labels:
  fixes b :: "int list"
  assumes "set b = {0, 1}"
  shows "metrics_roc_curve b b 1 = Inr ([Float 0, Float 0, Float 1], [Float 0, Float 1, Float 1])"
proof -
  let ?p = "length (filter (\<lambda>l. l = 1) b)"
  let ?n = "length (filter (\<lambda>l. l \<noteq> 1) b)"
  have ne: "b \<noteq> []" using assms by auto
  have p: "0 < ?p" using assms by (intro length_filter_pos [of 1]) auto
  have n: "0 < ?n" using assms by (intro length_filter_pos [of 0]) auto
  have "sorted (sort (remdups b))" "distinct (sort (remdups b))" "set (sort (remdups b)) = set [0, 1::int]"
    using assms by auto
  then have "sort (remdups b) = [0, 1]"
    by (intro sorted_distinct_set_unique) auto
  then have th: "rev (sort (remdups b)) = [1, 0]" by simp
  have t1: "filter (\<lambda>x. 1 \<le> x \<and> x = 1) b = filter (\<lambda>l. l = 1) b"
    by (rule filter_cong) auto
  have f1: "filter (\<lambda>x. 1 \<le> x \<and> x \<noteq> 1) b = []"
    using assms by (auto simp: filter_empty_conv)
  have t0: "filter (\<lambda>x. 0 \<le> x \<and> x = 1) b = filter (\<lambda>l. l = 1) b"
    by (rule filter_cong) auto
  have f0: "filter (\<lambda>x. 0 \<le> x \<and> x \<noteq> 1) b = filter (\<lambda>l. l \<noteq> 1) b"
    using assms by (intro filter_cong) auto
  show ?thesis
    using ne p n
    by (simp add: metrics_roc_curve_def Let_def th zip_same filter_map comp_def
        t1 f1 t0 f0 ratio_def)
qed

lemma auc_perfect: "metrics_auc [Float 0, Float 0, Float 1] [Float 0, Float 1, Float 1] = Inr (Float 1)"
  by (simp add: metrics_auc_def Let_def)

text \<open>
  C7: for true values and scores of equal length that fall on the same side of the
  cutoff at every position, with both sides present, \<open>auc_score\<close> is 1.
\<close>

theorem auc_score_perfect_separation:
  assumes "length true = length sc"
    and "\<forall>i < length true. (true ! i \<le> c) = (sc ! i \<le> c)"
    and "\<exists>v \<in> set true. v \<le> c" and "\<exists>v \<in> set true. \<not> v \<le> c"
  shows "auc_score true sc (Some c) = Inr (Float 1)"
proof -
  have same: "binarize c sc = binarize c true"
    using assms(1,2) by (intro nth_equalityI) (auto simp: binarize_def)
  have "1 \<in> set (binarize c true)" "0 \<in> set (binarize c true)"
    using assms(3,4) by (force simp: binarize_def)+
  with set_binarize [of c true] have "set (binarize c true) = {0, 1}" by auto
  from roc_curve_same_labels [OF this] show ?thesis
    by (simp add: auc_score_def same auc_perfect)
qed

theorem auc_score_perfect_separation_witness:
  "length [100, 1000 :: real] = length [200, 600 :: real] \<and>
   auc_score [100, 1000] [200, 600] (Some 500) = Inr (Float 1)"
proof -
  have a: "length [100, 1000 :: real] = length [200, 600 :: real]" by simp
  have b: "\<forall>i < length [100, 1000 :: real]. ([100, 1000] ! i \<le> (500::real)) = ([200, 600] ! i \<le> (500::real))"
    by (simp add: less_Suc_eq)
  have c: "\<exists>v \<in> set [100, 1000 :: real]. v \<le> 500" by simp
  have d: "\<exists>v \<in> set [100, 1000 :: real]. \<not> v \<le> 500" by simp
  from auc_score_perfect_separation [OF a b c d] show ?thesis by simp
qed

text \<open>
  C9: with a cutoff, \<open>auc_score\<close> is the area under the ROC curve of the true values
  and the scores both reduced to 0 and 1 by \<open>v \<le> cutoff\<close>, so scores with the same
  reduction get the same area; and the score \<open>evaluate_predictor\<close> returns is
  \<open>auc_score\<close> at cutoff 500 of the \<open>ic50\<close> column and the score column of the merged
  frame.
\<close>

theorem auc_score_binarizes_both:
  "auc_score true sc (Some c) =
     (case metrics_roc_curve (binarize c true) (binarize c sc) 1 of
        Inl e \<Rightarrow> Inl e
      | Inr (fpr, tpr) \<Rightarrow> metrics_auc fpr tpr) \<and>
   binarize c sc = map (\<lambda>v. if v \<le> c then 1 else 0) sc \<and>
   binarize c true = map (\<lambda>v. if v \<le> c then 1 else 0) true \<and>
   (binarize c sc' = binarize c sc \<longrightarrow> auc_score true sc' (Some c) = auc_score true sc (Some c)) \<and>
   (\<forall>auc data. evaluate_predictor get_evaluation_set P a = Inr (auc, data) \<longrightarrow>
      (\<exists>x. get_evaluation_set (Some a) (Some 9) = Inr data \<and>
           scores P (map peptide data) a = Inr x \<and>
           auc_score (map (\<lambda>r. ic50 (fst r)) (merge_on_peptide data x))
             (map snd (merge_on_peptide data x)) (Some 500) = Inr auc))"
  by (auto simp: auc_score_def binarize_def evaluate_predictor_def Let_def split: sum.splits)

theorem auc_score_binarizes_both_witness:
  "evaluate_predictor example_evaluation example_predictor ''HLA-A*01:01''
     = Inr (Float 1, [row_a1, row_a3]) \<and>
   auc_score [20000, 32] [9000, 450] (Some 500) = Inr (Float 1) \<and>
   binarize 500 [100, 200, 300, 600] = binarize 500 [1, 2, 3, 501] \<and>
   auc_score [100, 600, 100, 600] [100, 200, 300, 600] (Some 500) = Inr (Float (3 / 4)) \<and>
   auc_score [100, 600, 100, 600] [1, 2, 3, 501] (Some 500) = Inr (Float (3 / 4)) \<and>
   (case metrics_roc_curve (binarize 500 [100, 600, 100, 600]) [100, 200, 300, 600 :: real] 1 of
      Inl e \<Rightarrow> Inl e
    | Inr (fpr, tpr) \<Rightarrow> metrics_auc fpr tpr) = Inr (Float (1 / 4))"
proof -
  have e: "evaluate_predictor example_evaluation example_predictor ''HLA-A*01:01''
     = Inr (Float 1, [row_a1, row_a3])"
    by (simp add: evaluate_predictor_def example_evaluation_def example_predictor_def
        merge_on_peptide_def row_a1_def row_a3_def auc_score_def binarize_def
        metrics_roc_curve_def metrics_auc_def ratio_def Let_def)
  have b: "binarize 500 [1, 2, 3, 501] = binarize 500 [100, 200, 300, 600]"
    by (simp add: binarize_def)
  have v: "auc_score [100, 600, 100, 600] [100, 200, 300, 600] (Some 500) = Inr (Float (3 / 4))"
    by (simp add: auc_score_def binarize_def metrics_roc_curve_def metrics_auc_def ratio_def Let_def)
  have r: "(case metrics_roc_curve (binarize 500 [100, 600, 100, 600]) [100, 200, 300, 600 :: real] 1 of
      Inl e \<Rightarrow> Inl e
    | Inr (fpr, tpr) \<Rightarrow> metrics_auc fpr tpr) = Inr (Float (1 / 4))"
    by (simp add: binarize_def metrics_roc_curve_def metrics_auc_def ratio_def Let_def)
  from auc_score_binarizes_both [where true = "[100, 600, 100, 600]"
      and sc = "[100, 200, 300, 600]" and sc' = "[1, 2, 3, 501]" and c = 500
      and get_evaluation_set = example_evaluation and P = example_predictor
      and a = "''HLA-A*01:01''"] e b v r
  show ?thesis
    by (simp add: example_evaluation_def example_predictor_def merge_on_peptide_def
        row_a1_def row_a3_def)
qed

end
